theory Spec2Isabelle
  imports Main "HOL-Library.Multiset"
begin

section \<open>micro-os: entries, tags, search, import and export\<close>

text \<open>
  The application keeps a list of entries in React state, writes it through to
  \<^verbatim>\<open>localStorage\<close> and can export and import it as a JSON snapshot.
  Strings are lists of 8-bit characters; text outside ASCII is held as its UTF-8 bytes.
  Timestamps are the integers \<^verbatim>\<open>Date.now()\<close> returns.
\<close>

subsection \<open>String primitives of the platform\<close>

text \<open>
  \<^verbatim>\<open>String.prototype.toLowerCase\<close>, on ASCII letters; every other character is
  left as it is.
\<close>

definition lowerChar :: "char \<Rightarrow> char" where
  "lowerChar c =
     (case map_of (zip ''ABCDEFGHIJKLMNOPQRSTUVWXYZ'' ''abcdefghijklmnopqrstuvwxyz'') c of
        Some l \<Rightarrow> l
      | None \<Rightarrow> c)"

definition toLowerCase :: "string \<Rightarrow> string" where
  "toLowerCase s = map lowerChar s"

text \<open>
  \<^verbatim>\<open>String.prototype.trim\<close> removes white space at both ends; in ASCII that is
  tab, line feed, vertical tab, form feed, carriage return and space.
\<close>

definition isWhiteSpace :: "char \<Rightarrow> bool" where
  "isWhiteSpace c = (c \<in> set [CHR 0x09, CHR 0x0A, CHR 0x0B, CHR 0x0C, CHR 0x0D, CHR 0x20])"

definition trim :: "string \<Rightarrow> string" where
  "trim s = rev (dropWhile isWhiteSpace (rev (dropWhile isWhiteSpace s)))"

text \<open>
  \<^verbatim>\<open>s.split(sep)\<close> for a one-character separator: the pieces between the
  separators, the empty string giving one empty piece.
\<close>

fun splitOn :: "char \<Rightarrow> string \<Rightarrow> string list" where
  "splitOn sep [] = [[]]"
| "splitOn sep (c # cs) =
     (if c = sep then [] # splitOn sep cs
      else (case splitOn sep cs of
              [] \<Rightarrow> [[c]]
            | p # ps \<Rightarrow> (c # p) # ps))"




text \<open>\<^verbatim>\<open>arr.indexOf(t)\<close>: the first index holding \<open>t\<close>, or \<open>-1\<close>.\<close>

fun indexOf :: "'a list \<Rightarrow> 'a \<Rightarrow> int" where
  "indexOf [] t = - 1"
| "indexOf (x # xs) t =
     (if x = t then 0
      else (let r = indexOf xs t in if r < 0 then - 1 else r + 1))"

subsection \<open>Tag normalisation\<close>

text \<open>
  \<^verbatim>\<open>
  function normalizeTags(input: string): string[] {
    return input
      .split(",")
      .map((t) => t.trim())
      .filter(Boolean)
      .map((t) => t.toLowerCase())
      .filter((t, i, arr) => arr.indexOf(t) === i);
  }
  \<close>
  The last filter sees each element with its index and the whole array.
\<close>

definition firstOccurrences :: "'a list \<Rightarrow> 'a list" where
  "firstOccurrences arr =
     map snd (filter (\<lambda>(i, t). indexOf arr t = int i) (enumerate 0 arr))"

definition normalizeTags :: "string \<Rightarrow> string list" where
  "normalizeTags input =
     firstOccurrences
       (map toLowerCase (filter (\<lambda>t. t \<noteq> []) (map trim (splitOn (CHR '','') input))))"

text \<open>
  The specification's wording of the last step: a piece is dropped when it has already
  appeared earlier in the sequence.
\<close>

fun dropSeen :: "'a list \<Rightarrow> 'a list \<Rightarrow> 'a list" where
  "dropSeen seen [] = []"
| "dropSeen seen (x # xs) =
     (if x \<in> set seen then dropSeen seen xs else x # dropSeen (x # seen) xs)"

definition normalizeTags_spec :: "string \<Rightarrow> string list" where
  "normalizeTags_spec raw =
     dropSeen []
       (map toLowerCase (filter (\<lambda>t. t \<noteq> []) (map trim (splitOn (CHR '','') raw))))"

subsection \<open>Entries\<close>

text \<open>
  \<^verbatim>\<open>
  export type Entry = {
    id: string; title: string; oneLiner: string; example: string;
    tags: string[]; createdAt: number; updatedAt: number;
  };
  \<close>
  The field \<^verbatim>\<open>id\<close> is written \<open>idE\<close>.
\<close>

record entry =
  idE :: string
  title :: string
  oneLiner :: string
  example :: string
  tags :: "string list"
  createdAt :: int
  updatedAt :: int

subsection \<open>Sorting\<close>

text \<open>
  \<^verbatim>\<open>Array.prototype.sort\<close> with a comparator is stable: of two elements the
  comparator does not order, the one that came first stays first. Insertion from the
  right end of the array computes that result.
\<close>

fun insertSorted :: "('a \<Rightarrow> 'a \<Rightarrow> int) \<Rightarrow> 'a \<Rightarrow> 'a list \<Rightarrow> 'a list" where
  "insertSorted cmp x [] = [x]"
| "insertSorted cmp x (y # ys) =
     (if cmp x y \<le> 0 then x # y # ys else y # insertSorted cmp x ys)"

definition sortJS :: "('a \<Rightarrow> 'a \<Rightarrow> int) \<Rightarrow> 'a list \<Rightarrow> 'a list" where
  "sortJS cmp xs = foldr (insertSorted cmp) xs []"

text \<open>The comparator \<^verbatim>\<open>(a, b) => b.updatedAt - a.updatedAt\<close>.\<close>

definition byUpdatedDesc :: "entry \<Rightarrow> entry \<Rightarrow> int" where
  "byUpdatedDesc a b = updatedAt b - updatedAt a"

subsection \<open>JSON values\<close>

text \<open>
  What \<^verbatim>\<open>JSON.parse\<close> returns. An object is its list of members in the order of
  the text; numbers are the integers.
\<close>

datatype json =
    JNull
  | JBool bool
  | JNum int
  | JStr string
  | JArr "json list"
  | JObj "(string \<times> json) list"

text \<open>
  Reading a property gives \<^verbatim>\<open>undefined\<close> (\<open>None\<close>) where there is none; of a
  member written twice the last one counts. The seven property names read below are not
  properties of an array.
\<close>

fun getProp :: "json \<Rightarrow> string \<Rightarrow> json option" where
  "getProp (JObj members) k = map_of (rev members) k"
| "getProp _ k = None"

fun truthy :: "json \<Rightarrow> bool" where
  "truthy JNull = False"
| "truthy (JBool b) = b"
| "truthy (JNum n) = (n \<noteq> 0)"
| "truthy (JStr s) = (s \<noteq> [])"
| "truthy (JArr xs) = True"
| "truthy (JObj members) = True"

fun typeof :: "json option \<Rightarrow> string" where
  "typeof None = ''undefined''"
| "typeof (Some JNull) = ''object''"
| "typeof (Some (JBool b)) = ''boolean''"
| "typeof (Some (JNum n)) = ''number''"
| "typeof (Some (JStr s)) = ''string''"
| "typeof (Some (JArr xs)) = ''object''"
| "typeof (Some (JObj members)) = ''object''"

fun isArray :: "json option \<Rightarrow> bool" where
  "isArray (Some (JArr xs)) = True"
| "isArray _ = False"

text \<open>
  \<^verbatim>\<open>
  function isEntry(x: any): x is Entry {
    return (
      x && typeof x === "object" &&
      typeof x.id === "string" && typeof x.title === "string" &&
      typeof x.oneLiner === "string" && typeof x.example === "string" &&
      Array.isArray(x.tags) &&
      typeof x.createdAt === "number" && typeof x.updatedAt === "number"
    );
  }
  \<close>
\<close>

definition isEntry :: "json \<Rightarrow> bool" where
  "isEntry x =
     (truthy x \<and> typeof (Some x) = ''object''
      \<and> typeof (getProp x ''id'') = ''string''
      \<and> typeof (getProp x ''title'') = ''string''
      \<and> typeof (getProp x ''oneLiner'') = ''string''
      \<and> typeof (getProp x ''example'') = ''string''
      \<and> isArray (getProp x ''tags'')
      \<and> typeof (getProp x ''createdAt'') = ''number''
      \<and> typeof (getProp x ''updatedAt'') = ''number'')"

text \<open>
  The assertions \<^verbatim>\<open>as Entry[]\<close> check nothing. \<open>asEntry\<close> reads the seven
  fields of the asserted type; a value the assertion lets through against that type
  (a tag that is not a string, an element that is no object) is read as the empty
  string, zero or the empty list.
\<close>

fun asString :: "json option \<Rightarrow> string" where
  "asString (Some (JStr s)) = s"
| "asString _ = []"

fun asNumber :: "json option \<Rightarrow> int" where
  "asNumber (Some (JNum n)) = n"
| "asNumber _ = 0"

fun asStrings :: "json option \<Rightarrow> string list" where
  "asStrings (Some (JArr xs)) = map (\<lambda>t. asString (Some t)) xs"
| "asStrings _ = []"

definition asEntry :: "json \<Rightarrow> entry" where
  "asEntry x =
     \<lparr> idE = asString (getProp x ''id''),
       title = asString (getProp x ''title''),
       oneLiner = asString (getProp x ''oneLiner''),
       example = asString (getProp x ''example''),
       tags = asStrings (getProp x ''tags''),
       createdAt = asNumber (getProp x ''createdAt''),
       updatedAt = asNumber (getProp x ''updatedAt'') \<rparr>"

text \<open>The object an entry is, as \<^verbatim>\<open>JSON.stringify\<close> sees it.\<close>

definition toJson :: "entry \<Rightarrow> json" where
  "toJson e =
     JObj [(''id'', JStr (idE e)),
           (''title'', JStr (title e)),
           (''oneLiner'', JStr (oneLiner e)),
           (''example'', JStr (example e)),
           (''tags'', JArr (map JStr (tags e))),
           (''createdAt'', JNum (createdAt e)),
           (''updatedAt'', JNum (updatedAt e))]"

subsection \<open>Persistence\<close>

text \<open>
  \<^verbatim>\<open>localStorage\<close> maps keys to strings. \<^verbatim>\<open>JSON.parse\<close> and
  \<^verbatim>\<open>JSON.stringify\<close> belong to the platform: every function that calls them takes
  them as the parameters \<open>JSON_parse\<close> (\<open>Inl\<close> carries the message of the
  \<^verbatim>\<open>SyntaxError\<close> it throws) and \<open>JSON_stringify\<close> (the value and the
  indentation).
  \<^verbatim>\<open>
  const KEY = "micro_os_entries_v1";
  export function loadEntries(): Entry[] {
    try {
      const raw = localStorage.getItem(KEY);
      if (!raw) return [];
      const parsed = JSON.parse(raw) as unknown;
      if (!Array.isArray(parsed)) return [];
      return parsed as Entry[];
    } catch { return []; }
  }
  export function saveEntries(entries: Entry[]) {
    localStorage.setItem(KEY, JSON.stringify(entries));
  }
  \<close>
\<close>

type_synonym storage = "string \<rightharpoonup> string"

definition KEY :: string where
  "KEY = ''micro_os_entries_v1''"

definition loadEntries :: "(string \<Rightarrow> string + json) \<Rightarrow> storage \<Rightarrow> entry list" where
  "loadEntries JSON_parse store =
     (case store KEY of
        None \<Rightarrow> []
      | Some raw \<Rightarrow>
          if raw = [] then []
          else (case JSON_parse raw of
                  Inl msg \<Rightarrow> []
                | Inr parsed \<Rightarrow>
                    (case parsed of
                       JArr xs \<Rightarrow> map asEntry xs
                     | _ \<Rightarrow> [])))"

definition saveEntries :: "(json \<Rightarrow> nat \<Rightarrow> string) \<Rightarrow> entry list \<Rightarrow> storage \<Rightarrow> storage" where
  "saveEntries JSON_stringify es store = store(KEY \<mapsto> JSON_stringify (JArr (map toJson es)) 0)"

subsection \<open>Application state\<close>

text \<open>
  The state of \<^verbatim>\<open>App\<close>: the three \<^verbatim>\<open>useState\<close> cells and the browser's
  \<^verbatim>\<open>localStorage\<close>. An event handler reads the state of the render it was made in
  and calls the setters; what it asked for is an \<open>updates\<close> record, \<open>alerted\<close>
  holding the message given to \<^verbatim>\<open>alert\<close>.
\<close>

record app =
  entries :: "entry list"
  selectedId :: string
  query :: string
  localStorage :: storage

record updates =
  setEntries :: "entry list option"
  setSelectedId :: "string option"
  setQuery :: "string option"
  alerted :: "string option"

definition noUpdates :: updates where
  "noUpdates = \<lparr> setEntries = None, setSelectedId = None, setQuery = None, alerted = None \<rparr>"

text \<open>
  \<^verbatim>\<open>
  const selected = useMemo(
    () => entries.find((e) => e.id === selectedId) ?? null, [entries, selectedId]);
  \<close>
\<close>

definition selected :: "app \<Rightarrow> entry option" where
  "selected st = find (\<lambda>e. idE e = selectedId st) (entries st)"

subsection \<open>Search\<close>




subsection \<open>Creating, updating and deleting\<close>

text \<open>
  \<^verbatim>\<open>
  function createNew() {
    const now = Date.now();
    const e: Entry = { id: uid(), title: "new rule", oneLiner: "", example: "",
                       tags: [], createdAt: now, updatedAt: now };
    setEntries((prev) => [e, ...prev]);
    setSelectedId(e.id);
  }
  \<close>
  What \<^verbatim>\<open>uid()\<close> and \<^verbatim>\<open>Date.now()\<close> return are the parameters \<open>uid\<close> and
  \<open>now\<close>.
\<close>

definition createNew :: "string \<Rightarrow> int \<Rightarrow> app \<Rightarrow> updates" where
  "createNew uid now st =
     (let e = \<lparr> idE = uid, title = ''new rule'', oneLiner = [], example = [], tags = [],
                 createdAt = now, updatedAt = now \<rparr>
      in noUpdates \<lparr> setEntries := Some (e # entries st), setSelectedId := Some (idE e) \<rparr>)"

text \<open>
  \<^verbatim>\<open>Partial<Entry>\<close>: each of the seven fields is there or not.
  \<^verbatim>\<open>
  function updateSelected(patch: Partial<Entry>) {
    if (!selected) return;
    setEntries((prev) =>
      prev.map((e) => e.id === selected.id ? { ...e, ...patch, updatedAt: Date.now() } : e));
  }
  \<close>
\<close>

record patch =
  patch_id :: "string option"
  patch_title :: "string option"
  patch_oneLiner :: "string option"
  patch_example :: "string option"
  patch_tags :: "string list option"
  patch_createdAt :: "int option"
  patch_updatedAt :: "int option"

definition spread :: "entry \<Rightarrow> patch \<Rightarrow> int \<Rightarrow> entry" where
  "spread e p now =
     \<lparr> idE = (case patch_id p of Some v \<Rightarrow> v | None \<Rightarrow> idE e),
       title = (case patch_title p of Some v \<Rightarrow> v | None \<Rightarrow> title e),
       oneLiner = (case patch_oneLiner p of Some v \<Rightarrow> v | None \<Rightarrow> oneLiner e),
       example = (case patch_example p of Some v \<Rightarrow> v | None \<Rightarrow> example e),
       tags = (case patch_tags p of Some v \<Rightarrow> v | None \<Rightarrow> tags e),
       createdAt = (case patch_createdAt p of Some v \<Rightarrow> v | None \<Rightarrow> createdAt e),
       updatedAt = now \<rparr>"

definition updateSelected :: "patch \<Rightarrow> int \<Rightarrow> app \<Rightarrow> updates" where
  "updateSelected p now st =
     (case selected st of
        None \<Rightarrow> noUpdates
      | Some sel \<Rightarrow>
          noUpdates \<lparr> setEntries :=
            Some (map (\<lambda>e. if idE e = idE sel then spread e p now else e) (entries st)) \<rparr>)"

text \<open>
  \<^verbatim>\<open>
  function deleteSelected() {
    if (!selected) return;
    const id = selected.id;
    setEntries((prev) => prev.filter((e) => e.id !== id));
    const remaining = entries.filter((e) => e.id !== id)
                             .sort((a, b) => b.updatedAt - a.updatedAt);
    setSelectedId(remaining[0]?.id ?? "");
  }
  \<close>
\<close>

definition deleteSelected :: "app \<Rightarrow> updates" where
  "deleteSelected st =
     (case selected st of
        None \<Rightarrow> noUpdates
      | Some sel \<Rightarrow>
          (let remaining = sortJS byUpdatedDesc (filter (\<lambda>e. idE e \<noteq> idE sel) (entries st))
           in noUpdates \<lparr> setEntries := Some (filter (\<lambda>e. idE e \<noteq> idE sel) (entries st)),
                           setSelectedId := Some (case remaining of [] \<Rightarrow> [] | r # rs \<Rightarrow> idE r) \<rparr>))"

subsection \<open>Export and import\<close>


text \<open>
  A \<^verbatim>\<open>Map\<close> keeps its keys in the order they were first set; setting a key again
  replaces the value where it stands.
\<close>

fun Map_set :: "'k \<Rightarrow> 'v \<Rightarrow> ('k \<times> 'v) list \<Rightarrow> ('k \<times> 'v) list" where
  "Map_set k v [] = [(k, v)]"
| "Map_set k v ((k', v') # m) =
     (if k' = k then (k', v) # m else (k', v') # Map_set k v m)"

definition Map_new :: "('k \<times> 'v) list \<Rightarrow> ('k \<times> 'v) list" where
  "Map_new pairs = foldl (\<lambda>m (k, v). Map_set k v m) [] pairs"

definition Map_values :: "('k \<times> 'v) list \<Rightarrow> 'v list" where
  "Map_values m = map snd m"

text \<open>
  \<^verbatim>\<open>
  async function importJsonFile(file: File) {
    try {
      const text = await file.text();
      const parsed = JSON.parse(text) as unknown;
      if (!Array.isArray(parsed)) throw new Error("invalid json: expected an array");
      const incoming = parsed.filter(isEntry) as Entry[];
      if (incoming.length === 0) throw new Error("no valid entries found");
      setEntries((prev) => {
        const map = new Map(prev.map((e) => [e.id, e]));
        for (const e of incoming) map.set(e.id, e);
        return Array.from(map.values()).sort((a, b) => b.updatedAt - a.updatedAt);
      });
      const newest = incoming.sort((a, b) => b.updatedAt - a.updatedAt)[0];
      if (newest?.id) setSelectedId(newest.id);
    } catch (err: any) {
      alert(err?.message ?? "import failed");
    } finally { if (fileRef.current) fileRef.current.value = ""; }
  }
  \<close>
  The function given to \<^verbatim>\<open>setEntries\<close> is \<open>mergeById\<close>.
  \<^verbatim>\<open>incoming.sort\<close> sorts the array in place, and the function given to
  \<^verbatim>\<open>setEntries\<close> reads the same array: when React runs that function at once it
  sees \<open>incoming\<close> in the order of the file, when React defers it to the next render
  it sees \<open>incoming\<close> sorted. The parameter \<open>deferred\<close> says which.
\<close>

definition mergeById :: "entry list \<Rightarrow> entry list \<Rightarrow> entry list" where
  "mergeById prev incoming =
     (let map0 = Map_new (map (\<lambda>e. (idE e, e)) prev);
          map1 = foldl (\<lambda>m e. Map_set (idE e) e m) map0 incoming
      in sortJS byUpdatedDesc (Map_values map1))"

definition importJsonFile :: "(string \<Rightarrow> string + json) \<Rightarrow> bool \<Rightarrow> string \<Rightarrow> app \<Rightarrow> updates" where
  "importJsonFile JSON_parse deferred text st =
     (case JSON_parse text of
        Inl msg \<Rightarrow> noUpdates \<lparr> alerted := Some msg \<rparr>
      | Inr parsed \<Rightarrow>
          (case parsed of
             JArr xs \<Rightarrow>
               (let incoming = map asEntry (filter isEntry xs) in
                if length incoming = 0 then noUpdates \<lparr> alerted := Some ''no valid entries found'' \<rparr>
                else
                  (let sorted = sortJS byUpdatedDesc incoming;
                       seen = (if deferred then sorted else incoming)
                   in noUpdates
                        \<lparr> setEntries := Some (mergeById (entries st) seen),
                          setSelectedId :=
                            (case sorted of
                               [] \<Rightarrow> None
                             | newest # rest \<Rightarrow> if idE newest \<noteq> [] then Some (idE newest) else None) \<rparr>))
           | _ \<Rightarrow> noUpdates \<lparr> alerted := Some ''invalid json: expected an array'' \<rparr>))"

subsection \<open>Rendering and effects\<close>

text \<open>
  \<^verbatim>\<open>
  useEffect(() => { saveEntries(entries); }, [entries]);
  useEffect(() => {
    if (!selectedId && entries.length > 0) setSelectedId(entries[0].id);
  }, [selectedId, entries]);
  \<close>
  After a handler, React renders with the new state and runs each effect whose
  dependencies changed: the first when \<^verbatim>\<open>setEntries\<close> was called (every call in this
  program gives a new array), the second also when the selection changed.
  \<^verbatim>\<open>localStorage.setItem\<close> is taken to store what it is given.
\<close>

definition persist :: "(json \<Rightarrow> nat \<Rightarrow> string) \<Rightarrow> app \<Rightarrow> app" where
  "persist JSON_stringify st =
     st \<lparr> localStorage := saveEntries JSON_stringify (entries st) (localStorage st) \<rparr>"

definition selectFirst :: "app \<Rightarrow> app" where
  "selectFirst st =
     (case entries st of
        [] \<Rightarrow> st
      | e # es \<Rightarrow> if selectedId st = [] then st \<lparr> selectedId := idE e \<rparr> else st)"

definition dispatch :: "(json \<Rightarrow> nat \<Rightarrow> string) \<Rightarrow> (app \<Rightarrow> updates) \<Rightarrow> app \<Rightarrow> app" where
  "dispatch JSON_stringify handler st =
     (let u = handler st;
          st1 = st \<lparr> entries := (case setEntries u of Some es \<Rightarrow> es | None \<Rightarrow> entries st),
                     selectedId := (case setSelectedId u of Some i \<Rightarrow> i | None \<Rightarrow> selectedId st),
                     query := (case setQuery u of Some q \<Rightarrow> q | None \<Rightarrow> query st) \<rparr>;
          st2 = (if setEntries u = None then st1 else persist JSON_stringify st1)
      in if setEntries u = None \<and> selectedId st1 = selectedId st then st2 else selectFirst st2)"

text \<open>
  \<^verbatim>\<open>
  const [entries, setEntries] = useState<Entry[]>(() => {
    const loaded = loadEntries();
    if (loaded.length > 0) return loaded;
    const now = Date.now();
    return [
      { id: uid(), title: "two-way door decisions", oneLiner: "...", example: "...",
        tags: ["decision", "speed"], createdAt: now, updatedAt: now },
      { id: uid(), title: "default alive", oneLiner: "...", example: "...",
        tags: ["life", "optionalities"], createdAt: now + 1, updatedAt: now + 1 },
    ];
  });
  const [selectedId, setSelectedId] = useState<string>(() => {
    const loaded = loadEntries();
    return loaded[0]?.id ?? "";
  });
  const [query, setQuery] = useState("");
  \<close>
  The arrow is the bytes E2 86 92 and the apostrophe E2 80 99.
\<close>

definition seedEntries :: "int \<Rightarrow> string \<Rightarrow> string \<Rightarrow> entry list" where
  "seedEntries now uid1 uid2 =
     [ \<lparr> idE = uid1,
         title = ''two-way door decisions'',
         oneLiner = ''reversible decisions '' @ [CHR 0xE2, CHR 0x86, CHR 0x92]
                    @ '' move fast; irreversible '' @ [CHR 0xE2, CHR 0x86, CHR 0x92]
                    @ '' slow down.'',
         example = ''trying a new note app is reversible. signing a long contract isn''
                   @ [CHR 0xE2, CHR 0x80, CHR 0x99] @ ''t.'',
         tags = [''decision'', ''speed''],
         createdAt = now,
         updatedAt = now \<rparr>,
       \<lparr> idE = uid2,
         title = ''default alive'',
         oneLiner = ''if it keeps options open, bias toward it.'',
         example = ''choose the path that preserves flexibility when you''
                   @ [CHR 0xE2, CHR 0x80, CHR 0x99] @ ''re uncertain.'',
         tags = [''life'', ''optionalities''],
         createdAt = now + 1,
         updatedAt = now + 1 \<rparr> ]"

definition initialEntries :: "(string \<Rightarrow> string + json) \<Rightarrow> storage \<Rightarrow> int \<Rightarrow> string \<Rightarrow> string \<Rightarrow> entry list" where
  "initialEntries JSON_parse store now uid1 uid2 =
     (let loaded = loadEntries JSON_parse store in
      if length loaded > 0 then loaded else seedEntries now uid1 uid2)"

definition initialSelectedId :: "(string \<Rightarrow> string + json) \<Rightarrow> storage \<Rightarrow> string" where
  "initialSelectedId JSON_parse store =
     (case loadEntries JSON_parse store of [] \<Rightarrow> [] | e # es \<Rightarrow> idE e)"

text \<open>The first render, followed by both effects.\<close>

definition mount ::
  "(string \<Rightarrow> string + json) \<Rightarrow> (json \<Rightarrow> nat \<Rightarrow> string) \<Rightarrow> storage \<Rightarrow> int \<Rightarrow> string \<Rightarrow> string \<Rightarrow> app" where
  "mount JSON_parse JSON_stringify store now uid1 uid2 =
     selectFirst
       (persist JSON_stringify
          \<lparr> entries = initialEntries JSON_parse store now uid1 uid2,
            selectedId = initialSelectedId JSON_parse store,
            query = [],
            localStorage = store \<rparr>)"

subsection \<open>User actions\<close>

text \<open>
  What the user can do: the \<^verbatim>\<open>new\<close> button or key, an edit of a field of the
  editor, the \<^verbatim>\<open>delete\<close> button, the choice of a file to import, a click on an
  item of the list, and typing in the search box.
\<close>

datatype action =
    CreateNew string int
  | UpdateSelected patch int
  | DeleteSelected
  | ImportJsonFile bool string
  | SelectItem string
  | Search string

fun handler :: "(string \<Rightarrow> string + json) \<Rightarrow> action \<Rightarrow> app \<Rightarrow> updates" where
  "handler JSON_parse (CreateNew uid now) = createNew uid now"
| "handler JSON_parse (UpdateSelected p now) = updateSelected p now"
| "handler JSON_parse DeleteSelected = deleteSelected"
| "handler JSON_parse (ImportJsonFile deferred text) = importJsonFile JSON_parse deferred text"
| "handler JSON_parse (SelectItem i) = (\<lambda>st. noUpdates \<lparr> setSelectedId := Some i \<rparr>)"
| "handler JSON_parse (Search q) = (\<lambda>st. noUpdates \<lparr> setQuery := Some q \<rparr>)"

definition step ::
  "(string \<Rightarrow> string + json) \<Rightarrow> (json \<Rightarrow> nat \<Rightarrow> string) \<Rightarrow> app \<Rightarrow> action \<Rightarrow> app" where
  "step JSON_parse JSON_stringify st a = dispatch JSON_stringify (handler JSON_parse a) st"

text \<open>
  For a run on concrete data the two platform functions are fixed on the texts and
  values the run meets: \<open>parseAs\<close> parses the listed texts to the listed values and
  rejects every other text, \<open>stringifyAs\<close> prints the listed values as listed.
\<close>

definition parseAs :: "(string \<times> json) list \<Rightarrow> string \<Rightarrow> string + json" where
  "parseAs known text =
     (case map_of known text of Some v \<Rightarrow> Inr v | None \<Rightarrow> Inl ''Unexpected token'')"

definition stringifyAs :: "(json \<times> string) list \<Rightarrow> json \<Rightarrow> nat \<Rightarrow> string" where
  "stringifyAs known v indent = (case map_of known v of Some t \<Rightarrow> t | None \<Rightarrow> [])"

subsection \<open>Example data\<close>

text \<open>
  The patch with no field, \<^verbatim>\<open>{}\<close>. The editor's four call sites pass
  \<^verbatim>\<open>{ title }\<close>, \<^verbatim>\<open>{ oneLiner }\<close>, \<^verbatim>\<open>{ example }\<close> and
  \<^verbatim>\<open>{ tags: normalizeTags(...) }\<close>: \<open>emptyPatch\<close> with that one field set.
\<close>

definition emptyPatch :: patch where
  "emptyPatch = \<lparr> patch_id = None, patch_title = None, patch_oneLiner = None, patch_example = None,
                  patch_tags = None, patch_createdAt = None, patch_updatedAt = None \<rparr>"

text \<open>Two entries, the snapshots that hold them, and the states that show them.\<close>

definition entry_x :: entry where
  "entry_x = \<lparr> idE = ''x'', title = ''T'', oneLiner = [], example = [], tags = [],
               createdAt = 1, updatedAt = 1 \<rparr>"

definition entry_y :: entry where
  "entry_y = \<lparr> idE = ''y'', title = ''Y'', oneLiner = ''one'', example = [], tags = [''a''],
               createdAt = 2, updatedAt = 3 \<rparr>"

definition text_x :: string where
  \<open>text_x = ''[{"id":"x","title":"T","oneLiner":"","example":"","tags":[],"createdAt":1,"updatedAt":1}]''\<close>

definition text_xy :: string where
  \<open>text_xy = ''[{"id":"x","title":"T","oneLiner":"","example":"","tags":[],"createdAt":1,"updatedAt":1},{"id":"y","title":"Y","oneLiner":"one","example":"","tags":["a"],"createdAt":2,"updatedAt":3}]''\<close>

definition state_x :: app where
  "state_x = \<lparr> entries = [entry_x], selectedId = ''x'', query = [],
               localStorage = [KEY \<mapsto> text_x] \<rparr>"

definition state_xy :: app where
  "state_xy = \<lparr> entries = [entry_x, entry_y], selectedId = ''x'', query = [],
                localStorage = [KEY \<mapsto> text_xy] \<rparr>"

text \<open>
  The entry \<open>x\<close> after an edit of its title at time 10, an incoming record for the
  same id, a record updated before it was created, a record whose id is the empty
  string, and the state with no entry.
\<close>

definition entry_x2 :: entry where
  "entry_x2 = \<lparr> idE = ''x'', title = ''T2'', oneLiner = [], example = [], tags = [],
                createdAt = 1, updatedAt = 10 \<rparr>"

definition text_x2 :: string where
  \<open>text_x2 = ''[{"id":"x","title":"T2","oneLiner":"","example":"","tags":[],"createdAt":1,"updatedAt":10}]''\<close>

definition entry_x5 :: entry where
  "entry_x5 = \<lparr> idE = ''x'', title = ''T'', oneLiner = [], example = [], tags = [],
                createdAt = 1, updatedAt = 5 \<rparr>"

definition text_x5 :: string where
  \<open>text_x5 = ''[{"id":"x","title":"T","oneLiner":"","example":"","tags":[],"createdAt":1,"updatedAt":5}]''\<close>

definition entry_backdated :: entry where
  "entry_backdated = \<lparr> idE = ''b'', title = ''B'', oneLiner = [], example = [], tags = [],
                       createdAt = 5, updatedAt = 1 \<rparr>"

definition text_backdated :: string where
  \<open>text_backdated = ''[{"id":"b","title":"B","oneLiner":"","example":"","tags":[],"createdAt":5,"updatedAt":1}]''\<close>




text \<open>Two texts that are JSON and hold no entry.\<close>

definition text_object :: string where
  \<open>text_object = ''{"a":1}''\<close>

definition text_no_entry :: string where
  \<open>text_no_entry = ''[1,{"id":"x"}]''\<close>

subsection \<open>Vocabulary of the proofs\<close>

text \<open>Setting every entry of a list in a \<^verbatim>\<open>Map\<close>, as the loop of the merge does.\<close>

definition setAll :: "(string \<times> entry) list \<Rightarrow> entry list \<Rightarrow> (string \<times> entry) list" where
  "setAll m es = foldl (\<lambda>m e. Map_set (idE e) e m) m es"

text \<open>Every value of the \<^verbatim>\<open>Map\<close> stands under its own id.\<close>

definition keyed :: "(string \<times> entry) list \<Rightarrow> bool" where
  "keyed m = (\<forall>(k, v) \<in> set m. idE v = k)"

text \<open>
  The timestamps of a list of entries are in order when no entry was updated before it
  was created. \<open>keepsOrder\<close> says when an action can be relied on to keep them so: an
  edit whose patch has no \<open>createdAt\<close> and whose clock reading is not before the
  creation of the selected entry, an import whose accepted records are themselves in
  order, and every other action.
\<close>

definition ordered :: "entry list \<Rightarrow> bool" where
  "ordered es = (\<forall>e \<in> set es. createdAt e \<le> updatedAt e)"

fun keepsOrder :: "(string \<Rightarrow> string + json) \<Rightarrow> app \<Rightarrow> action \<Rightarrow> bool" where
  "keepsOrder P st (UpdateSelected p now) =
     (patch_createdAt p = None
      \<and> (\<forall>e \<in> set (entries st). idE e = selectedId st \<longrightarrow> createdAt e \<le> now))"
| "keepsOrder P st (ImportJsonFile d text) =
     (case P text of
        Inr (JArr xs) \<Rightarrow> ordered (map asEntry (filter isEntry xs))
      | _ \<Rightarrow> True)"
| "keepsOrder P st a = True"

text \<open>What \<^verbatim>\<open>localStorage\<close> holds under the key is the serialised collection.\<close>

definition written :: "(json \<Rightarrow> nat \<Rightarrow> string) \<Rightarrow> app \<Rightarrow> bool" where
  "written S st = (localStorage st KEY = Some (S (JArr (map toJson (entries st))) 0))"

text \<open>
  An action keeps the ids apart when a new entry gets an id no entry has, and an edit
  carries no \<open>id\<close>.
\<close>

fun freshIds :: "app \<Rightarrow> action \<Rightarrow> bool" where
  "freshIds st (CreateNew uid now) = (uid \<notin> idE ` set (entries st))"
| "freshIds st (UpdateSelected p now) = (patch_id p = None)"
| "freshIds st a = True"

lemmas handler_defs = importJsonFile_def createNew_def updateSelected_def deleteSelected_def
  noUpdates_def selected_def spread_def

section \<open>Tag normalisation is first-occurrence de-duplication\<close>

lemma indexOf_neg_iff: "indexOf xs t < 0 \<longleftrightarrow> t \<notin> set xs"
  by (induction xs) (auto simp: Let_def)

lemma indexOf_append_in: "t \<in> set ps \<Longrightarrow> indexOf (ps @ xs) t = indexOf ps t"
  by (induction ps) (auto simp: Let_def indexOf_neg_iff)

lemma indexOf_lt: "t \<in> set ps \<Longrightarrow> indexOf ps t < int (length ps)"
  by (induction ps) (auto simp: Let_def indexOf_neg_iff)

lemma indexOf_append_notin: "t \<notin> set ps \<Longrightarrow> indexOf (ps @ t # xs) t = int (length ps)"
  by (induction ps) (auto simp: Let_def)

lemma dropSeen_cong: "set s1 = set s2 \<Longrightarrow> dropSeen s1 xs = dropSeen s2 xs"
proof (induction xs arbitrary: s1 s2)
  case Nil
  show ?case by simp
next
  case (Cons x xs)
  have a: "dropSeen s1 xs = dropSeen s2 xs"
    by (rule Cons.IH[OF Cons.prems])
  have b: "dropSeen (x # s1) xs = dropSeen (x # s2) xs"
    by (rule Cons.IH) (simp add: Cons.prems)
  show ?case by (simp add: a b Cons.prems)
qed

text \<open>
  An element at position \<open>length ps + j\<close> of \<open>ps @ xs\<close> passes the index test
  exactly when it occurs in no earlier position.
\<close>

lemma firstOccurrences_from:
  "map snd (filter (\<lambda>(i, t). indexOf (ps @ xs) t = int i) (enumerate (length ps) xs))
   = dropSeen ps xs"
proof (induction xs arbitrary: ps)
  case Nil
  show ?case by simp
next
  case (Cons x xs)
  have IH: "map snd (filter (\<lambda>(i, t). indexOf (ps @ x # xs) t = int i)
                       (enumerate (Suc (length ps)) xs))
            = dropSeen (x # ps) xs"
    using Cons.IH[of "ps @ [x]"] dropSeen_cong[of "ps @ [x]" "x # ps" xs] by simp
  show ?case
  proof (cases "x \<in> set ps")
    case True
    then have "indexOf (ps @ x # xs) x \<noteq> int (length ps)"
      using indexOf_lt[of x ps] indexOf_append_in[of x ps "x # xs"] by simp
    moreover have "dropSeen (x # ps) xs = dropSeen ps xs"
      using True by (intro dropSeen_cong) auto
    ultimately show ?thesis using True IH by simp
  next
    case False
    then show ?thesis using IH indexOf_append_notin[of x ps xs] by simp
  qed
qed

lemma firstOccurrences_dropSeen: "firstOccurrences arr = dropSeen [] arr"
  using firstOccurrences_from[of "[]" arr] by (simp add: firstOccurrences_def)

lemma dropSeen_set: "set (dropSeen seen xs) = set xs - set seen"
  by (induction seen xs rule: dropSeen.induct) auto

lemma dropSeen_distinct: "distinct (dropSeen seen xs)"
  by (induction seen xs rule: dropSeen.induct) (auto simp: dropSeen_set)

lemma toLowerCase_Nil_iff: "([] = toLowerCase s) = (s = [])"
  by (auto simp add: toLowerCase_def)

lemma normalizeTags_is_spec: "normalizeTags raw = normalizeTags_spec raw"
  by (simp add: normalizeTags_def normalizeTags_spec_def firstOccurrences_dropSeen)

lemma normalizeTags_spec_distinct: "distinct (normalizeTags_spec raw)"
  by (simp add: normalizeTags_spec_def dropSeen_distinct)

lemma normalizeTags_spec_no_blank: "[] \<notin> set (normalizeTags_spec raw)"
  by (auto simp: normalizeTags_spec_def dropSeen_set toLowerCase_Nil_iff)

lemma normalizeTags_example: "normalizeTags ''a, A, b ,, b'' = [''a'', ''b'']"
  by (simp add: normalizeTags_def firstOccurrences_def toLowerCase_def lowerChar_def
      trim_def isWhiteSpace_def enumerate_eq_zip)

text \<open>
  Claim C6. For every input string, \<open>normalizeTags\<close> splits on commas, trims each
  piece, drops the empty pieces, lowercases, and keeps only the first occurrence of each
  value, in order (\<open>normalizeTags_spec\<close>, whose last step drops a piece that has
  already appeared); its output has no duplicate and no empty string; and
  \<open>normalizeTags "a, A, b ,, b" = ["a", "b"]\<close>.
\<close>

theorem normalizeTags_first_occurrences:
  "normalizeTags raw = normalizeTags_spec raw
   \<and> distinct (normalizeTags raw)
   \<and> [] \<notin> set (normalizeTags raw)
   \<and> normalizeTags ''a, A, b ,, b'' = [''a'', ''b'']"
  using normalizeTags_spec_distinct[of raw] normalizeTags_spec_no_blank[of raw]
    normalizeTags_example
  unfolding normalizeTags_is_spec[symmetric] by blast

section \<open>Sorting by \<open>updatedAt\<close>, newest first\<close>

lemma insertSorted_insort_key:
  "insertSorted byUpdatedDesc x ys = insort_key (\<lambda>e. - updatedAt e) x ys"
  by (induction ys) (simp_all add: byUpdatedDesc_def)

lemma sortJS_sort_key: "sortJS byUpdatedDesc xs = sort_key (\<lambda>e. - updatedAt e) xs"
proof -
  have "insertSorted byUpdatedDesc = insort_key (\<lambda>e. - updatedAt e)"
    by (intro ext) (rule insertSorted_insort_key)
  then show ?thesis by (simp add: sortJS_def sort_key_def)
qed

lemma mset_sortJS: "mset (sortJS byUpdatedDesc xs) = mset xs"
  by (simp add: sortJS_sort_key)

lemma set_sortJS: "set (sortJS byUpdatedDesc xs) = set xs"
  by (simp add: sortJS_sort_key)

lemma sorted_sortJS: "sorted_wrt (\<lambda>a b. updatedAt b \<le> updatedAt a) (sortJS byUpdatedDesc xs)"
proof -
  have "sorted (map (\<lambda>e. - updatedAt e) (sortJS byUpdatedDesc xs))"
    unfolding sortJS_sort_key by (rule sorted_sort_key)
  then show ?thesis by (simp add: sorted_map)
qed

lemma stable_sortJS:
  "filter (\<lambda>e. updatedAt e = k) (sortJS byUpdatedDesc xs) = filter (\<lambda>e. updatedAt e = k) xs"
  using sort_key_stable[of "\<lambda>e. - updatedAt e" "- k" xs] by (simp add: sortJS_sort_key)





lemma sortJS_Nil: "sortJS byUpdatedDesc [] = []"
  by (simp add: sortJS_def)

text \<open>The head of the sorted array is the first element with the greatest \<open>updatedAt\<close>.\<close>

lemma sortJS_head:
  assumes "xs \<noteq> []"
  shows "\<exists>n rest ps ss. sortJS byUpdatedDesc xs = n # rest \<and> xs = ps @ n # ss
           \<and> (\<forall>e \<in> set ps. updatedAt e < updatedAt n) \<and> (\<forall>e \<in> set ss. updatedAt e \<le> updatedAt n)"
proof -
  have "sortJS byUpdatedDesc xs \<noteq> []"
    using assms mset_sortJS[of xs] by (metis mset_zero_iff)
  then obtain n rest where nr: "sortJS byUpdatedDesc xs = n # rest"
    by (cases "sortJS byUpdatedDesc xs") auto
  have le: "\<forall>e \<in> set xs. updatedAt e \<le> updatedAt n"
    using sorted_sortJS[of xs] set_sortJS[of xs] unfolding nr by auto
  have "filter (\<lambda>e. updatedAt e = updatedAt n) xs = n # filter (\<lambda>e. updatedAt e = updatedAt n) rest"
    using stable_sortJS[of "updatedAt n" xs] unfolding nr by simp
  then obtain ps ss where xs: "xs = ps @ n # ss" and ps: "\<forall>u \<in> set ps. updatedAt u \<noteq> updatedAt n"
    unfolding filter_eq_Cons_iff by blast
  have "\<forall>e \<in> set ps. updatedAt e < updatedAt n"
  proof
    fix e assume e: "e \<in> set ps"
    then have "updatedAt e \<le> updatedAt n" using le xs by simp
    moreover have "updatedAt e \<noteq> updatedAt n" using ps e by blast
    ultimately show "updatedAt e < updatedAt n" by simp
  qed
  moreover have "\<forall>e \<in> set ss. updatedAt e \<le> updatedAt n"
    using le xs by simp
  ultimately show ?thesis using nr xs by blast
qed

section \<open>Search\<close>



section \<open>The \<^verbatim>\<open>Map\<close> of the merge\<close>


lemma keys_Map_set:
  "map fst (Map_set k v m) = (if k \<in> fst ` set m then map fst m else map fst m @ [k])"
  by (induction m) (force split: if_splits)+

lemma distinct_Map_set: "distinct (map fst m) \<Longrightarrow> distinct (map fst (Map_set k v m))"
  by (simp add: keys_Map_set)

lemma set_Map_set: "set (Map_set k v m) \<subseteq> insert (k, v) (set m)"
  by (induction m) (auto split: if_splits)




lemma setAll_Nil: "setAll m [] = m" by (simp add: setAll_def)
lemma setAll_Cons: "setAll m (e # es) = setAll (Map_set (idE e) e m) es" by (simp add: setAll_def)
lemma setAll_append: "setAll m (xs @ ys) = setAll (setAll m xs) ys" by (simp add: setAll_def)

lemma Map_new_entries: "Map_new (map (\<lambda>e. (idE e, e)) prev) = setAll [] prev"
  by (simp add: Map_new_def setAll_def foldl_map)

lemma distinct_setAll: "distinct (map fst m) \<Longrightarrow> distinct (map fst (setAll m es))"
  by (induction es arbitrary: m) (simp_all add: setAll_Nil setAll_Cons distinct_Map_set)

lemma keyed_Map_set: "keyed m \<Longrightarrow> keyed (Map_set (idE e) e m)"
  using set_Map_set[of "idE e" e m] by (auto simp: keyed_def)

lemma keyed_setAll: "keyed m \<Longrightarrow> keyed (setAll m es)"
  by (induction es arbitrary: m) (simp_all add: setAll_Nil setAll_Cons keyed_Map_set)

lemma values_setAll: "snd ` set (setAll m es) \<subseteq> snd ` set m \<union> set es"
proof (induction es arbitrary: m)
  case Nil show ?case by (simp add: setAll_Nil)
next
  case (Cons e es)
  have "snd ` set (Map_set (idE e) e m) \<subseteq> insert e (snd ` set m)"
    using set_Map_set[of "idE e" e m] by force
  moreover have "snd ` set (setAll (Map_set (idE e) e m) es)
                 \<subseteq> snd ` set (Map_set (idE e) e m) \<union> set es"
    by (rule Cons.IH)
  ultimately have "snd ` set (setAll (Map_set (idE e) e m) es) \<subseteq> snd ` set m \<union> insert e (set es)"
    by blast
  then show ?case by (simp add: setAll_Cons)
qed




lemma mergeById_setAll:
  "mergeById prev seen = sortJS byUpdatedDesc (map snd (setAll [] (prev @ seen)))"
  by (simp add: mergeById_def Map_values_def Map_new_entries setAll_append Let_def flip: setAll_def)


lemma set_mergeById: "set (mergeById prev seen) \<subseteq> set prev \<union> set seen"
  using values_setAll[of "[]" "prev @ seen"] by (simp add: mergeById_setAll set_sortJS)

lemma find_SomeD: "find P xs = Some x \<Longrightarrow> x \<in> set xs \<and> P x"
  by (induction xs) (auto split: if_splits)




section \<open>Handlers, rendering and effects\<close>

lemma dispatch_noUpdates:
  "setEntries (h st) = None \<Longrightarrow> setSelectedId (h st) = None \<Longrightarrow> setQuery (h st) = None
   \<Longrightarrow> dispatch S h st = st"
  by (simp add: dispatch_def Let_def)

lemma entries_selectFirst: "entries (selectFirst st) = entries st"
  by (simp add: selectFirst_def split: list.splits)

lemma localStorage_selectFirst: "localStorage (selectFirst st) = localStorage st"
  by (simp add: selectFirst_def split: list.splits)

lemma selectedId_selectFirst:
  "selectedId (selectFirst st) =
     (case entries st of [] \<Rightarrow> selectedId st
      | e # es \<Rightarrow> if selectedId st = [] then idE e else selectedId st)"
  by (simp add: selectFirst_def split: list.splits)

lemma entries_dispatch:
  "entries (dispatch S h st) = (case setEntries (h st) of Some es \<Rightarrow> es | None \<Rightarrow> entries st)"
  by (simp add: dispatch_def Let_def entries_selectFirst persist_def)

lemma localStorage_dispatch:
  "localStorage (dispatch S h st) =
     (case setEntries (h st) of
        Some es \<Rightarrow> saveEntries S es (localStorage st)
      | None \<Rightarrow> localStorage st)"
  by (auto simp add: dispatch_def Let_def localStorage_selectFirst persist_def split: option.splits)

lemma selectedId_dispatch_Some:
  "setSelectedId (h st) = Some i \<Longrightarrow> i \<noteq> [] \<Longrightarrow> selectedId (dispatch S h st) = i"
  by (auto simp add: dispatch_def Let_def selectedId_selectFirst persist_def split: list.splits)

section \<open>A failed import changes nothing\<close>

text \<open>
  Claim C1. For every input text, if the import fails at one of its first four steps (the
  text is not valid JSON, the parsed value is not an array, or no element of the array
  passes \<open>isEntry\<close>), a message is given to \<^verbatim>\<open>alert\<close> (the parser's message,
  \<open>invalid json: expected an array\<close> or \<open>no valid entries found\<close>) and the state
  after the handler, the render and the effects is the state before: neither the entries
  nor \<^verbatim>\<open>localStorage\<close> changed.
\<close>

theorem importJsonFile_failure_atomic:
  assumes "(\<exists>msg. P text = Inl msg)
           \<or> (\<exists>v. P text = Inr v \<and> \<not> isArray (Some v))
           \<or> (\<exists>xs. P text = Inr (JArr xs) \<and> filter isEntry xs = [])"
  shows "alerted (importJsonFile P d text st)
           = Some (case P text of
                     Inl msg \<Rightarrow> msg
                   | Inr v \<Rightarrow> (case v of
                                JArr xs \<Rightarrow> ''no valid entries found''
                              | _ \<Rightarrow> ''invalid json: expected an array''))
         \<and> dispatch S (importJsonFile P d text) st = st"
proof -
  have u: "alerted (importJsonFile P d text st)
           = Some (case P text of
                     Inl msg \<Rightarrow> msg
                   | Inr v \<Rightarrow> (case v of
                                JArr xs \<Rightarrow> ''no valid entries found''
                              | _ \<Rightarrow> ''invalid json: expected an array''))
        \<and> setEntries (importJsonFile P d text st) = None
        \<and> setSelectedId (importJsonFile P d text st) = None
        \<and> setQuery (importJsonFile P d text st) = None"
    using assms
  proof (elim disjE exE conjE)
    fix msg assume "P text = Inl msg"
    then show ?thesis by (simp add: importJsonFile_def noUpdates_def)
  next
    fix v assume "P text = Inr v" "\<not> isArray (Some v)"
    then show ?thesis by (cases v) (simp_all add: importJsonFile_def noUpdates_def)
  next
    fix xs assume "P text = Inr (JArr xs)" "filter isEntry xs = []"
    then show ?thesis by (simp add: importJsonFile_def noUpdates_def)
  qed
  then show ?thesis using dispatch_noUpdates[of "importJsonFile P d text" st S] by simp
qed

text \<open>
  The three failures: a text that is not JSON, an object, and an array with no entry
  (\<open>1\<close>, and an object that has only an \<open>id\<close>).
\<close>

theorem importJsonFile_failure_witness:
  "alerted (importJsonFile (parseAs []) False ''not json'' state_xy) = Some ''Unexpected token''
   \<and> dispatch (stringifyAs []) (importJsonFile (parseAs []) False ''not json'') state_xy = state_xy
   \<and> alerted (importJsonFile (parseAs [(text_object, JObj [(''a'', JNum 1)])]) False text_object state_xy)
       = Some ''invalid json: expected an array''
   \<and> dispatch (stringifyAs []) (importJsonFile (parseAs [(text_object, JObj [(''a'', JNum 1)])]) False text_object) state_xy
       = state_xy
   \<and> alerted (importJsonFile (parseAs [(text_no_entry, JArr [JNum 1, JObj [(''id'', JStr ''x'')]])]) False text_no_entry state_xy)
       = Some ''no valid entries found''
   \<and> dispatch (stringifyAs []) (importJsonFile (parseAs [(text_no_entry, JArr [JNum 1, JObj [(''id'', JStr ''x'')]])]) False text_no_entry) state_xy
       = state_xy"
proof -
  have 1: "parseAs [] ''not json'' = Inl ''Unexpected token''" by (simp add: parseAs_def)
  have 2: "parseAs [(text_object, JObj [(''a'', JNum 1)])] text_object = Inr (JObj [(''a'', JNum 1)])"
    by (simp add: parseAs_def)
  have 3: "parseAs [(text_no_entry, JArr [JNum 1, JObj [(''id'', JStr ''x'')]])] text_no_entry
           = Inr (JArr [JNum 1, JObj [(''id'', JStr ''x'')]])"
    by (simp add: parseAs_def)
  show ?thesis
    using importJsonFile_failure_atomic[of "parseAs []" "''not json''" False state_xy "stringifyAs []"]
      importJsonFile_failure_atomic[of "parseAs [(text_object, JObj [(''a'', JNum 1)])]" text_object
        False state_xy "stringifyAs []"]
      importJsonFile_failure_atomic[of "parseAs [(text_no_entry, JArr [JNum 1, JObj [(''id'', JStr ''x'')]])]"
        text_no_entry False state_xy "stringifyAs []"]
    by (simp add: 1 2 3 isEntry_def)
qed

section \<open>Creating an entry\<close>

text \<open>
  Claim C3, as the code has it. For every prior state, \<open>createNew\<close> builds an entry
  whose title is \<open>new rule\<close>, whose oneLiner and example are the empty string, whose
  tags are empty and whose \<open>createdAt\<close> and \<open>updatedAt\<close> are both \<open>now\<close>; the entry
  is put in front of the collection and is the selection afterwards; no message is
  alerted and there is no state in which the handler does not return.
\<close>

theorem createNew_prepends:
  "(let st' = dispatch S (createNew uid now) st;
        e = \<lparr> idE = uid, title = ''new rule'', oneLiner = [], example = [], tags = [],
               createdAt = now, updatedAt = now \<rparr>
    in entries st' = e # entries st
       \<and> selectedId st' = uid
       \<and> alerted (createNew uid now st) = None)"
proof -
  have 1: "entries (dispatch S (createNew uid now) st)
           = \<lparr> idE = uid, title = ''new rule'', oneLiner = [], example = [], tags = [],
               createdAt = now, updatedAt = now \<rparr> # entries st"
    by (simp add: entries_dispatch createNew_def noUpdates_def)
  have 2: "selectedId (dispatch S (createNew uid now) st) = uid"
    by (simp add: dispatch_def Let_def createNew_def noUpdates_def persist_def
        selectedId_selectFirst)
  have 3: "alerted (createNew uid now st) = None"
    by (simp add: createNew_def noUpdates_def)
  show ?thesis using 1 2 3 by (simp add: Let_def)
qed

text \<open>The title of the new entry is not the empty string.\<close>

theorem createNew_title_counterexample:
  "title (hd (entries (dispatch (stringifyAs []) (createNew ''u'' 7) state_x))) = ''new rule''
   \<and> title (hd (entries (dispatch (stringifyAs []) (createNew ''u'' 7) state_x))) \<noteq> []"
  by (simp add: entries_dispatch createNew_def noUpdates_def)

section \<open>Updating the selected entry\<close>




section \<open>An entry and its JSON object\<close>

lemma asEntry_toJson: "asEntry (toJson e) = e"
  by (simp add: asEntry_def toJson_def comp_def)

lemma isEntry_toJson: "isEntry (toJson e)"
  by (simp add: isEntry_def toJson_def)

lemma map_asEntry_toJson: "map asEntry (map toJson es) = es"
  by (simp add: asEntry_toJson comp_def)

lemma map_asEntry_o_toJson: "map (asEntry \<circ> toJson) es = es"
  by (simp add: asEntry_toJson comp_def)


section \<open>Order of the timestamps\<close>

lemma ordered_sortJS: "ordered (sortJS byUpdatedDesc es) = ordered es"
  by (simp add: ordered_def set_sortJS)

lemma ordered_filter: "ordered es \<Longrightarrow> ordered (filter Q es)"
  by (simp add: ordered_def)

lemma ordered_mergeById: "ordered prev \<Longrightarrow> ordered seen \<Longrightarrow> ordered (mergeById prev seen)"
  using set_mergeById[of prev seen] by (auto simp: ordered_def)

lemma ordered_seedEntries: "ordered (seedEntries now u1 u2)"
  by (simp add: ordered_def seedEntries_def)

lemma entries_mount: "entries (mount P S store now u1 u2) = initialEntries P store now u1 u2"
  by (simp add: mount_def entries_selectFirst persist_def)

lemma entries_step_cases:
  "entries (step P S st a) = (case setEntries (handler P a st) of Some es \<Rightarrow> es | None \<Rightarrow> entries st)"
  by (simp add: step_def entries_dispatch)

lemma ordered_importJsonFile:
  assumes "ordered (entries st)" "keepsOrder P st (ImportJsonFile d text)"
    "setEntries (importJsonFile P d text st) = Some es"
  shows "ordered es"
proof (cases "P text")
  case (Inl msg)
  then show ?thesis using assms(3) by (simp add: importJsonFile_def noUpdates_def)
next
  case (Inr v)
  show ?thesis
  proof (cases v)
    case (JArr xs)
    let ?inc = "map asEntry (filter isEntry xs)"
    have o: "ordered ?inc" using assms(2) Inr JArr by simp
    show ?thesis
    proof (cases "filter isEntry xs = []")
      case True
      then show ?thesis using assms(3) Inr JArr by (simp add: importJsonFile_def noUpdates_def)
    next
      case False
      then have "es = mergeById (entries st) (if d then sortJS byUpdatedDesc ?inc else ?inc)"
        using assms(3) Inr JArr by (simp add: importJsonFile_def noUpdates_def Let_def)
      then show ?thesis using o assms(1) by (simp add: ordered_mergeById ordered_sortJS)
    qed
  qed (insert assms(3) Inr, simp_all add: importJsonFile_def noUpdates_def)
qed

lemma ordered_updateSelected:
  assumes "ordered (entries st)" "keepsOrder P st (UpdateSelected p now)"
    "setEntries (updateSelected p now st) = Some es"
  shows "ordered es"
proof (cases "selected st")
  case None
  then show ?thesis using assms(3) by (simp add: updateSelected_def noUpdates_def)
next
  case (Some sel)
  then have sel: "idE sel = selectedId st"
    using find_SomeD[of "\<lambda>e. idE e = selectedId st" "entries st" sel] by (simp add: selected_def)
  have es: "es = map (\<lambda>e. if idE e = selectedId st then spread e p now else e) (entries st)"
    using assms(3) Some sel by (simp add: updateSelected_def noUpdates_def)
  show ?thesis using assms(1,2) unfolding es ordered_def
    by (auto simp: spread_def)
qed

text \<open>
  Claim C8, as the code has it. The seed entries are in order, so the collection after
  the first render is in order when the loaded collection is; and from a collection in
  order every action that \<open>keepsOrder\<close> leads to a collection in order: creating,
  deleting, selecting and searching always, an edit when its patch has no
  \<open>createdAt\<close> and the clock is not before the creation of the selected entry, an
  import when every record it accepts has \<open>updatedAt >= createdAt\<close>. \<open>isEntry\<close>
  does not compare the two timestamps.
\<close>

theorem timestamps_ordered_preserved:
  "(ordered (loadEntries P store) \<longrightarrow> ordered (entries (mount P S store now u1 u2)))
   \<and> (ordered (entries st) \<and> keepsOrder P st a \<longrightarrow> ordered (entries (step P S st a)))"
proof (intro conjI impI)
  assume "ordered (loadEntries P store)"
  then show "ordered (entries (mount P S store now u1 u2))"
    by (simp add: entries_mount initialEntries_def Let_def ordered_seedEntries)
next
  assume a: "ordered (entries st) \<and> keepsOrder P st a"
  show "ordered (entries (step P S st a))"
  proof (cases a)
    case (CreateNew u n)
    then show ?thesis using a
      by (simp add: entries_step_cases createNew_def noUpdates_def ordered_def)
  next
    case (UpdateSelected p n)
    then show ?thesis using a ordered_updateSelected[of st P p n]
      by (auto simp add: entries_step_cases split: option.splits)
  next
    case DeleteSelected
    then show ?thesis using a
      by (auto simp add: entries_step_cases deleteSelected_def noUpdates_def Let_def ordered_def
          split: option.splits)
  next
    case (ImportJsonFile d tx)
    then show ?thesis using a ordered_importJsonFile[of st P d tx]
      by (auto simp add: entries_step_cases split: option.splits)
  next
    case (SelectItem i)
    then show ?thesis using a by (simp add: entries_step_cases noUpdates_def)
  next
    case (Search q)
    then show ?thesis using a by (simp add: entries_step_cases noUpdates_def)
  qed
qed

text \<open>
  An import into the state holding the entry \<open>x\<close> and \<open>y\<close>, of a record in order.
\<close>

theorem timestamps_ordered_witness:
  "ordered (entries state_xy)
   \<and> keepsOrder (parseAs [(text_x5, JArr [toJson entry_x5])]) state_xy (ImportJsonFile False text_x5)
   \<and> ordered (entries (step (parseAs [(text_x5, JArr [toJson entry_x5])]) (stringifyAs [])
                         state_xy (ImportJsonFile False text_x5)))
   \<and> ordered (loadEntries (parseAs [(text_x5, JArr [toJson entry_x5])]) Map.empty)
   \<and> ordered (entries (mount (parseAs [(text_x5, JArr [toJson entry_x5])]) (stringifyAs [])
                          Map.empty 1000 ''u1'' ''u2''))"
proof -
  have 1: "ordered (entries state_xy)"
    by (simp add: ordered_def state_xy_def entry_x_def entry_y_def)
  have 2: "keepsOrder (parseAs [(text_x5, JArr [toJson entry_x5])]) state_xy (ImportJsonFile False text_x5)"
    by (simp add: parseAs_def isEntry_toJson asEntry_toJson ordered_def entry_x5_def)
  have 3: "ordered (loadEntries (parseAs [(text_x5, JArr [toJson entry_x5])]) Map.empty)"
    by (simp add: loadEntries_def ordered_def)
  show ?thesis
    using 1 2 3
      timestamps_ordered_preserved[of "parseAs [(text_x5, JArr [toJson entry_x5])]" Map.empty
        "stringifyAs []" 1000 "''u1''" "''u2''" state_xy "ImportJsonFile False text_x5"]
    by blast
qed

text \<open>
  \<open>isEntry\<close> accepts a record with \<open>createdAt = 5\<close> and \<open>updatedAt = 1\<close>, and
  the import puts it into the collection.
\<close>

theorem import_backdated_counterexample:
  "ordered (entries state_x)
   \<and> isEntry (toJson entry_backdated)
   \<and> \<not> ordered (entries (step (parseAs [(text_backdated, JArr [toJson entry_backdated])])
                            (stringifyAs []) state_x (ImportJsonFile False text_backdated)))"
proof -
  have 1: "ordered (entries state_x)"
    by (simp add: ordered_def state_x_def entry_x_def)
  have 2: "entries (step (parseAs [(text_backdated, JArr [toJson entry_backdated])])
                            (stringifyAs []) state_x (ImportJsonFile False text_backdated))
           = mergeById [entry_x] [entry_backdated]"
    by (simp add: entries_step_cases importJsonFile_def parseAs_def isEntry_toJson asEntry_toJson
        noUpdates_def state_x_def Let_def)
  have 3: "mergeById [entry_x] [entry_backdated] = [entry_x, entry_backdated]"
    by (simp add: mergeById_def Map_new_def Map_values_def sortJS_def byUpdatedDesc_def
        entry_x_def entry_backdated_def)
  show ?thesis using 1 unfolding 2 3 by (simp add: isEntry_toJson ordered_def entry_backdated_def)
qed

section \<open>Write-through\<close>

lemma written_mount: "written S (mount P S store now u1 u2)"
  by (simp add: written_def mount_def entries_selectFirst localStorage_selectFirst persist_def
      saveEntries_def)

lemma written_dispatch: "written S st \<Longrightarrow> written S (dispatch S h st)"
  by (cases "setEntries (h st)")
     (simp_all add: written_def entries_dispatch localStorage_dispatch saveEntries_def)

lemma written_run: "written S st \<Longrightarrow> written S (foldl (step P S) st acts)"
  by (induction acts arbitrary: st) (simp_all add: step_def written_dispatch)

text \<open>
  Claim C2. After the first render and after every action of every sequence of actions
  (create, update, delete, import, select, search), \<^verbatim>\<open>localStorage\<close> holds under
  \<open>KEY\<close> the serialisation of the entries in memory; and when \<^verbatim>\<open>JSON.parse\<close>
  reads that text back, \<open>loadEntries\<close> returns the entries in memory.
\<close>

theorem write_through:
  "(let st = foldl (step P S) (mount P S store now u1 u2) acts;
        text = S (JArr (map toJson (entries st))) 0
    in localStorage st KEY = Some text
       \<and> (text \<noteq> [] \<and> P text = Inr (JArr (map toJson (entries st)))
            \<longrightarrow> loadEntries P (localStorage st) = entries st))"
proof -
  let ?st = "foldl (step P S) (mount P S store now u1 u2) acts"
  have w: "localStorage ?st KEY = Some (S (JArr (map toJson (entries ?st))) 0)"
    using written_run[OF written_mount, of S P P store now u1 u2 acts] by (simp add: written_def)
  show ?thesis
    by (simp add: Let_def w loadEntries_def map_asEntry_o_toJson)
qed

lemma mount_text_x:
  "mount (parseAs [(text_x, JArr [toJson entry_x]), (text_x2, JArr [toJson entry_x2])])
         (stringifyAs [(JArr [toJson entry_x], text_x), (JArr [toJson entry_x2], text_x2)])
         [KEY \<mapsto> text_x] 1000 ''u1'' ''u2'' = state_x"
  by (simp add: mount_def initialEntries_def initialSelectedId_def loadEntries_def parseAs_def
      stringifyAs_def persist_def saveEntries_def selectFirst_def asEntry_toJson state_x_def
      text_x_def entry_x_def)

text \<open>
  Mounting on a store that holds \<open>x\<close> and editing its title: the store then holds the
  text of the edited entry, and loading it gives the edited entry.
\<close>

theorem write_through_witness:
  "entries (foldl (step (parseAs [(text_x, JArr [toJson entry_x]), (text_x2, JArr [toJson entry_x2])])
                        (stringifyAs [(JArr [toJson entry_x], text_x), (JArr [toJson entry_x2], text_x2)]))
             (mount (parseAs [(text_x, JArr [toJson entry_x]), (text_x2, JArr [toJson entry_x2])])
                    (stringifyAs [(JArr [toJson entry_x], text_x), (JArr [toJson entry_x2], text_x2)])
                    [KEY \<mapsto> text_x] 1000 ''u1'' ''u2'')
             [UpdateSelected (emptyPatch \<lparr> patch_title := Some ''T2'' \<rparr>) 10])
     = [entry_x2]
   \<and> localStorage (foldl (step (parseAs [(text_x, JArr [toJson entry_x]), (text_x2, JArr [toJson entry_x2])])
                        (stringifyAs [(JArr [toJson entry_x], text_x), (JArr [toJson entry_x2], text_x2)]))
             (mount (parseAs [(text_x, JArr [toJson entry_x]), (text_x2, JArr [toJson entry_x2])])
                    (stringifyAs [(JArr [toJson entry_x], text_x), (JArr [toJson entry_x2], text_x2)])
                    [KEY \<mapsto> text_x] 1000 ''u1'' ''u2'')
             [UpdateSelected (emptyPatch \<lparr> patch_title := Some ''T2'' \<rparr>) 10]) KEY
     = Some text_x2
   \<and> loadEntries (parseAs [(text_x, JArr [toJson entry_x]), (text_x2, JArr [toJson entry_x2])])
        (localStorage (foldl (step (parseAs [(text_x, JArr [toJson entry_x]), (text_x2, JArr [toJson entry_x2])])
                        (stringifyAs [(JArr [toJson entry_x], text_x), (JArr [toJson entry_x2], text_x2)]))
             (mount (parseAs [(text_x, JArr [toJson entry_x]), (text_x2, JArr [toJson entry_x2])])
                    (stringifyAs [(JArr [toJson entry_x], text_x), (JArr [toJson entry_x2], text_x2)])
                    [KEY \<mapsto> text_x] 1000 ''u1'' ''u2'')
             [UpdateSelected (emptyPatch \<lparr> patch_title := Some ''T2'' \<rparr>) 10]))
     = [entry_x2]"
proof -
  let ?P = "parseAs [(text_x, JArr [toJson entry_x]), (text_x2, JArr [toJson entry_x2])]"
  let ?S = "stringifyAs [(JArr [toJson entry_x], text_x), (JArr [toJson entry_x2], text_x2)]"
  let ?acts = "[UpdateSelected (emptyPatch \<lparr> patch_title := Some ''T2'' \<rparr>) 10]"
  let ?st = "foldl (step ?P ?S) (mount ?P ?S [KEY \<mapsto> text_x] 1000 ''u1'' ''u2'') ?acts"
  have e: "entries ?st = [entry_x2]"
    unfolding mount_text_x
    by (simp add: entries_step_cases handler_defs emptyPatch_def state_x_def entry_x_def entry_x2_def)
  have s: "?S (JArr (map toJson [entry_x2])) 0 = text_x2"
    by (simp add: stringifyAs_def toJson_def entry_x_def entry_x2_def)
  have n: "text_x2 \<noteq> []" by (simp add: text_x2_def)
  have p: "?P text_x2 = Inr (JArr (map toJson [entry_x2]))"
    by (simp add: parseAs_def text_x_def text_x2_def)
  show ?thesis
    using write_through[of ?P ?S "[KEY \<mapsto> text_x]" 1000 "''u1''" "''u2''" ?acts] n p
    unfolding Let_def e s by simp
qed

section \<open>The first render\<close>

lemma loadEntries_Nil_iff:
  "(loadEntries P store = []) =
     (store KEY = None
      \<or> (\<exists>raw. store KEY = Some raw
            \<and> (raw = [] \<or> (\<exists>msg. P raw = Inl msg)
                \<or> (\<exists>v. P raw = Inr v \<and> \<not> isArray (Some v))
                \<or> P raw = Inr (JArr []))))"
proof (cases "store KEY")
  case None
  then show ?thesis by (simp add: loadEntries_def)
next
  case (Some raw)
  show ?thesis
  proof (cases "raw = []")
    case True
    then show ?thesis using Some by (simp add: loadEntries_def)
  next
    case False
    show ?thesis
    proof (cases "P raw")
      case (Inl msg)
      then show ?thesis using Some False by (simp add: loadEntries_def)
    next
      case (Inr v)
      then show ?thesis using Some False by (cases v) (simp_all add: loadEntries_def)
    qed
  qed
qed

text \<open>
  Claim C10. When \<open>loadEntries\<close> returns the empty collection, which it does exactly
  when the key is absent, the stored text is empty, is not JSON, is not an array or is
  the empty array, the initial collection is the two seed entries, titled
  \<open>two-way door decisions\<close> and \<open>default alive\<close>, none of whose texts or tags is
  empty; when \<open>loadEntries\<close> returns a collection that is not empty, that collection
  is the initial one.
\<close>

theorem initial_entries_seeded:
  "(loadEntries P store = [] \<longrightarrow> entries (mount P S store now u1 u2) = seedEntries now u1 u2)
   \<and> (loadEntries P store \<noteq> [] \<longrightarrow> entries (mount P S store now u1 u2) = loadEntries P store)
   \<and> length (seedEntries now u1 u2) = 2
   \<and> map title (seedEntries now u1 u2) = [''two-way door decisions'', ''default alive'']
   \<and> (\<forall>e \<in> set (seedEntries now u1 u2).
         title e \<noteq> [] \<and> oneLiner e \<noteq> [] \<and> example e \<noteq> [] \<and> tags e \<noteq> [])
   \<and> (loadEntries P store = []) =
       (store KEY = None
        \<or> (\<exists>raw. store KEY = Some raw
              \<and> (raw = [] \<or> (\<exists>msg. P raw = Inl msg)
                  \<or> (\<exists>v. P raw = Inr v \<and> \<not> isArray (Some v))
                  \<or> P raw = Inr (JArr []))))"
proof -
  have 1: "loadEntries P store = [] \<longrightarrow> entries (mount P S store now u1 u2) = seedEntries now u1 u2"
    by (simp add: entries_mount initialEntries_def)
  have 2: "loadEntries P store \<noteq> [] \<longrightarrow> entries (mount P S store now u1 u2) = loadEntries P store"
    by (simp add: entries_mount initialEntries_def)
  have 3: "length (seedEntries now u1 u2) = 2" by (simp add: seedEntries_def)
  have 4: "map title (seedEntries now u1 u2) = [''two-way door decisions'', ''default alive'']"
    by (simp add: seedEntries_def)
  have 5: "\<forall>e \<in> set (seedEntries now u1 u2).
         title e \<noteq> [] \<and> oneLiner e \<noteq> [] \<and> example e \<noteq> [] \<and> tags e \<noteq> []"
    by (simp add: seedEntries_def)
  show ?thesis using 1 2 3 4 5 loadEntries_Nil_iff[of P store] by blast
qed

text \<open>Mounting on an empty store, and on a store that holds \<open>x\<close>.\<close>

theorem initial_entries_witness:
  "loadEntries (parseAs [(text_x, JArr [toJson entry_x])]) Map.empty = []
   \<and> entries (mount (parseAs [(text_x, JArr [toJson entry_x])]) (stringifyAs []) Map.empty 1000 ''u1'' ''u2'')
       = seedEntries 1000 ''u1'' ''u2''
   \<and> loadEntries (parseAs [(text_x, JArr [toJson entry_x])]) [KEY \<mapsto> text_x] = [entry_x]
   \<and> entries (mount (parseAs [(text_x, JArr [toJson entry_x])]) (stringifyAs []) [KEY \<mapsto> text_x] 1000 ''u1'' ''u2'')
       = [entry_x]"
proof -
  let ?P = "parseAs [(text_x, JArr [toJson entry_x])]"
  have 1: "loadEntries ?P Map.empty = []" by (simp add: loadEntries_def)
  have 2: "loadEntries ?P [KEY \<mapsto> text_x] = [entry_x]"
    by (simp add: loadEntries_def parseAs_def asEntry_toJson text_x_def)
  show ?thesis
    using 1 2 initial_entries_seeded[of ?P Map.empty "stringifyAs []" 1000 "''u1''" "''u2''"]
      initial_entries_seeded[of ?P "[KEY \<mapsto> text_x]" "stringifyAs []" 1000 "''u1''" "''u2''"]
    by simp
qed

section \<open>Import\<close>











section \<open>Unique ids\<close>

lemma keyed_values: "keyed m \<Longrightarrow> map idE (map snd m) = map fst m"
  by (induction m) (auto simp: keyed_def)

lemma distinct_ids_sortJS:
  "distinct (map idE (sortJS byUpdatedDesc xs)) = distinct (map idE xs)"
proof -
  have "mset (map idE (sortJS byUpdatedDesc xs)) = mset (map idE xs)"
    by (simp add: mset_sortJS)
  then show ?thesis by (rule mset_eq_imp_distinct_iff)
qed

lemma distinct_ids_mergeById: "distinct (map idE (mergeById prev seen))"
proof -
  let ?m = "setAll [] (prev @ seen)"
  have d: "distinct (map fst ?m)" by (rule distinct_setAll) simp
  have k: "keyed ?m" by (rule keyed_setAll) (simp add: keyed_def)
  show ?thesis
    unfolding mergeById_setAll distinct_ids_sortJS keyed_values[OF k] by (rule d)
qed

lemma distinct_ids_importJsonFile:
  "setEntries (importJsonFile P d text st) = Some es \<Longrightarrow> distinct (map idE es)"
proof (cases "P text")
  case (Inl msg)
  assume "setEntries (importJsonFile P d text st) = Some es"
  then show ?thesis using Inl by (simp add: importJsonFile_def noUpdates_def)
next
  case (Inr v)
  assume a: "setEntries (importJsonFile P d text st) = Some es"
  show ?thesis
  proof (cases v)
    case (JArr xs)
    show ?thesis
    proof (cases "filter isEntry xs = []")
      case True
      then show ?thesis using a Inr JArr by (simp add: importJsonFile_def noUpdates_def)
    next
      case False
      then have "\<exists>seen. es = mergeById (entries st) seen"
        using a Inr JArr by (auto simp add: importJsonFile_def noUpdates_def Let_def)
      then show ?thesis using distinct_ids_mergeById by blast
    qed
  qed (insert a Inr, simp_all add: importJsonFile_def noUpdates_def)
qed

text \<open>
  Property X1. The ids of the collection are unique after the first render when the ids
  of the loaded collection are and \<^verbatim>\<open>uid()\<close> returned two different ids for the seed
  entries; and they stay unique under every action, provided \<^verbatim>\<open>uid()\<close> gives
  \<open>createNew\<close> an id that no entry has and the patch of an edit carries no \<open>id\<close>.
  An import leaves unique ids whatever it was given.
\<close>

theorem ids_unique_preserved:
  "(distinct (map idE (loadEntries P store)) \<and> u1 \<noteq> u2
      \<longrightarrow> distinct (map idE (entries (mount P S store now u1 u2))))
   \<and> (distinct (map idE (entries st)) \<and> freshIds st a
      \<longrightarrow> distinct (map idE (entries (step P S st a))))"
proof (intro conjI impI)
  assume "distinct (map idE (loadEntries P store)) \<and> u1 \<noteq> u2"
  then show "distinct (map idE (entries (mount P S store now u1 u2)))"
    by (simp add: entries_mount initialEntries_def Let_def seedEntries_def)
next
  assume a: "distinct (map idE (entries st)) \<and> freshIds st a"
  show "distinct (map idE (entries (step P S st a)))"
  proof (cases a)
    case (CreateNew u n)
    then show ?thesis using a
      by (simp add: entries_step_cases createNew_def noUpdates_def)
  next
    case (UpdateSelected p n)
    then have "patch_id p = None" using a by simp
    then have "map idE (entries (dispatch S (updateSelected p n) st)) = map idE (entries st)"
      by (cases "selected st")
         (simp_all add: entries_dispatch updateSelected_def noUpdates_def spread_def comp_def
            cong: map_cong)
    then show ?thesis using a UpdateSelected by (simp add: step_def)
  next
    case DeleteSelected
    then show ?thesis using a
      by (auto simp add: entries_step_cases deleteSelected_def noUpdates_def Let_def
          distinct_map_filter split: option.splits)
  next
    case (ImportJsonFile d tx)
    then show ?thesis using a distinct_ids_importJsonFile[of P d tx st]
      by (auto simp add: entries_step_cases split: option.splits)
  next
    case (SelectItem i)
    then show ?thesis using a by (simp add: entries_step_cases noUpdates_def)
  next
    case (Search q)
    then show ?thesis using a by (simp add: entries_step_cases noUpdates_def)
  qed
qed

text \<open>Mounting on an empty store, and creating an entry next to \<open>x\<close> and \<open>y\<close>.\<close>

theorem ids_unique_witness:
  "distinct (map idE (loadEntries (parseAs []) Map.empty))
   \<and> distinct (map idE (entries (mount (parseAs []) (stringifyAs []) Map.empty 1000 ''u1'' ''u2'')))
   \<and> distinct (map idE (entries state_xy))
   \<and> freshIds state_xy (CreateNew ''z'' 7)
   \<and> distinct (map idE (entries (step (parseAs []) (stringifyAs []) state_xy (CreateNew ''z'' 7))))"
proof -
  have 1: "distinct (map idE (loadEntries (parseAs []) Map.empty))" by (simp add: loadEntries_def)
  have 2: "''u1'' \<noteq> ''u2''" by simp
  have 3: "distinct (map idE (entries state_xy))" by (simp add: state_xy_def entry_x_def entry_y_def)
  have 4: "freshIds state_xy (CreateNew ''z'' 7)" by (simp add: state_xy_def entry_x_def entry_y_def)
  show ?thesis
    using 1 2 3 4
      ids_unique_preserved[of "parseAs []" Map.empty "''u1''" "''u2''" "stringifyAs []" 1000
        state_xy "CreateNew ''z'' 7"]
    by blast
qed

section \<open>Deleting the selected entry\<close>

text \<open>
  Property X2. When an entry is selected, \<open>deleteSelected\<close> removes the entries of its
  id; when none remains the selection is empty, and otherwise the selection is the id of
  the remaining entry with the greatest \<open>updatedAt\<close> (the first of them in the order of
  the collection), provided that id is not the empty string.
\<close>

theorem deleteSelected_selects_newest:
  assumes "selected st = Some sel"
  shows "(let st' = dispatch S deleteSelected st in
          entries st' = filter (\<lambda>e. idE e \<noteq> idE sel) (entries st)
          \<and> (entries st' = [] \<longrightarrow> selectedId st' = [])
          \<and> (entries st' \<noteq> [] \<longrightarrow>
               (\<exists>n ps ss. entries st' = ps @ n # ss
                  \<and> (\<forall>e \<in> set ps. updatedAt e < updatedAt n)
                  \<and> (\<forall>e \<in> set ss. updatedAt e \<le> updatedAt n)
                  \<and> (idE n \<noteq> [] \<longrightarrow> selectedId st' = idE n))))"
proof -
  let ?rem = "filter (\<lambda>e. idE e \<noteq> idE sel) (entries st)"
  have u: "deleteSelected st =
             noUpdates \<lparr> setEntries := Some ?rem,
                         setSelectedId := Some (case sortJS byUpdatedDesc ?rem of [] \<Rightarrow> [] | r # rs \<Rightarrow> idE r) \<rparr>"
    using assms by (simp add: deleteSelected_def Let_def)
  have e: "entries (dispatch S deleteSelected st) = ?rem"
    by (simp add: entries_dispatch u noUpdates_def)
  have a: "?rem = [] \<longrightarrow> selectedId (dispatch S deleteSelected st) = []"
    by (simp add: dispatch_def u noUpdates_def Let_def persist_def selectedId_selectFirst sortJS_Nil)
  have b: "?rem \<noteq> [] \<longrightarrow>
               (\<exists>n ps ss. ?rem = ps @ n # ss
                  \<and> (\<forall>e \<in> set ps. updatedAt e < updatedAt n)
                  \<and> (\<forall>e \<in> set ss. updatedAt e \<le> updatedAt n)
                  \<and> (idE n \<noteq> [] \<longrightarrow> selectedId (dispatch S deleteSelected st) = idE n))"
  proof
    assume ne: "?rem \<noteq> []"
    obtain n rest ps ss where
      srt: "sortJS byUpdatedDesc ?rem = n # rest" and
      inc: "?rem = ps @ n # ss" and
      ps: "\<forall>e \<in> set ps. updatedAt e < updatedAt n" and
      ss: "\<forall>e \<in> set ss. updatedAt e \<le> updatedAt n"
      using sortJS_head[OF ne] by blast
    have "setSelectedId (deleteSelected st) = Some (idE n)"
      by (simp add: u noUpdates_def srt)
    then have "idE n \<noteq> [] \<longrightarrow> selectedId (dispatch S deleteSelected st) = idE n"
      using selectedId_dispatch_Some[of deleteSelected st "idE n" S] by simp
    then show "\<exists>n ps ss. ?rem = ps @ n # ss
                  \<and> (\<forall>e \<in> set ps. updatedAt e < updatedAt n)
                  \<and> (\<forall>e \<in> set ss. updatedAt e \<le> updatedAt n)
                  \<and> (idE n \<noteq> [] \<longrightarrow> selectedId (dispatch S deleteSelected st) = idE n)"
      using inc ps ss by blast
  qed
  show ?thesis unfolding Let_def e using a b by simp
qed

text \<open>Deleting \<open>x\<close> next to \<open>y\<close> selects \<open>y\<close>; deleting the only entry selects none.\<close>

theorem deleteSelected_witness:
  "selected state_xy = Some entry_x
   \<and> entries (dispatch (stringifyAs []) deleteSelected state_xy) = [entry_y]
   \<and> selectedId (dispatch (stringifyAs []) deleteSelected state_xy) = ''y''
   \<and> selected state_x = Some entry_x
   \<and> entries (dispatch (stringifyAs []) deleteSelected state_x) = []
   \<and> selectedId (dispatch (stringifyAs []) deleteSelected state_x) = []"
proof -
  have 1: "selected state_xy = Some entry_x"
    by (simp add: selected_def state_xy_def entry_x_def)
  have 2: "selected state_x = Some entry_x"
    by (simp add: selected_def state_x_def entry_x_def)
  have f1: "filter (\<lambda>e. idE e \<noteq> idE entry_x) (entries state_xy) = [entry_y]"
    by (simp add: state_xy_def entry_x_def entry_y_def)
  have f2: "filter (\<lambda>e. idE e \<noteq> idE entry_x) (entries state_x) = []"
    by (simp add: state_x_def)
  note t1 = deleteSelected_selects_newest[OF 1, of "stringifyAs []", unfolded Let_def f1]
  note t2 = deleteSelected_selects_newest[OF 2, of "stringifyAs []", unfolded Let_def f2]
  have e1: "entries (dispatch (stringifyAs []) deleteSelected state_xy) = [entry_y]" using t1 by blast
  obtain n ps ss where n: "[entry_y] = ps @ n # ss"
      "idE n \<noteq> [] \<longrightarrow> selectedId (dispatch (stringifyAs []) deleteSelected state_xy) = idE n"
    using t1 e1 by auto
  then have "n = entry_y" by (cases ps) auto
  then have s1: "selectedId (dispatch (stringifyAs []) deleteSelected state_xy) = ''y''"
    using n(2) by (simp add: entry_y_def)
  have e2: "entries (dispatch (stringifyAs []) deleteSelected state_x) = []" using t2 by blast
  have s2: "selectedId (dispatch (stringifyAs []) deleteSelected state_x) = []" using t2 by blast
  show ?thesis using 1 2 e1 s1 e2 s2 by blast
qed

end
